theory Spec2Isabelle
  imports Main "HOL-Library.Word" "HOL-Library.Signed_Division"
begin

unbundle bit_operations_syntax

section \<open>The sampling timer of pkg/sentry/kernel/time/time.go\<close>

text \<open>
  Go's \<open>int64\<close> and \<open>uint64\<close> are both 64-bit words: arithmetic wraps around, the
  conversion between the two keeps the bits.  Signed comparisons read a word through
  \<open>sint\<close>, unsigned division is the division of words.  \<open>time.Duration\<close> is an
  \<open>int64\<close> count of nanoseconds.
\<close>

type_synonym int64 = "64 word"
type_synonym uint64 = "64 word"
type_synonym Duration = "64 word"

definition MaxInt64 :: int64 where
  "MaxInt64 = 9223372036854775807"

definition MinInt64 :: int64 where
  "MinInt64 = - 9223372036854775808"

text \<open>Go's \<open>/\<close> on \<open>int64\<close> truncates towards zero.\<close>

definition quo64 :: "int64 \<Rightarrow> int64 \<Rightarrow> int64" where
  "quo64 a b = word_of_int (sint a sdiv sint b)"

text \<open>\<open>time.Nanosecond\<close> and \<open>time.Second.Nanoseconds()\<close>.\<close>

definition Nanosecond :: Duration where
  "Nanosecond = 1"

definition SecondNanoseconds :: int64 where
  "SecondNanoseconds = 1000000000"

subsection \<open>Time\<close>

record Time =
  ns :: int64

definition MinTime :: Time where
  "MinTime = \<lparr>ns = MinInt64\<rparr>"

definition MaxTime :: Time where
  "MaxTime = \<lparr>ns = MaxInt64\<rparr>"

definition ZeroTime :: Time where
  "ZeroTime = \<lparr>ns = 0\<rparr>"

definition MinDuration :: Duration where
  "MinDuration = MinInt64"

definition MaxDuration :: Duration where
  "MaxDuration = MaxInt64"

definition FromNanoseconds :: "int64 \<Rightarrow> Time" where
  "FromNanoseconds n = \<lparr>ns = n\<rparr>"

definition FromSeconds :: "int64 \<Rightarrow> Time" where
  "FromSeconds s =
     (if sint s > sint (quo64 MaxInt64 SecondNanoseconds) then MaxTime
      else \<lparr>ns = s * 1000000000\<rparr>)"

definition FromUnix :: "int64 \<Rightarrow> int64 \<Rightarrow> Time" where
  "FromUnix s n =
     (if sint s > sint (quo64 MaxInt64 SecondNanoseconds) then MaxTime
      else let t = s * 1000000000 in
        if sint t > sint (MaxInt64 - n) then MaxTime
        else \<lparr>ns = t + n\<rparr>)"

definition Nanoseconds :: "Time \<Rightarrow> int64" where
  "Nanoseconds t = ns t"

text \<open>\<open>time.Duration.Nanoseconds\<close>: the duration as an \<open>int64\<close>.\<close>

definition Duration_Nanoseconds :: "Duration \<Rightarrow> int64" where
  "Duration_Nanoseconds d = d"

definition Add :: "Time \<Rightarrow> Duration \<Rightarrow> Time" where
  "Add t d =
     (if sint (ns t) > 0 \<and> sint (Duration_Nanoseconds d) > sint (MaxInt64 - ns t) then MaxTime
      else if sint (ns t) < 0 \<and> sint (Duration_Nanoseconds d) < sint (MinInt64 - ns t) then MinTime
      else \<lparr>ns = ns t + Duration_Nanoseconds d\<rparr>)"

definition Equal :: "Time \<Rightarrow> Time \<Rightarrow> bool" where
  "Equal t u = (ns t = ns u)"

definition Before :: "Time \<Rightarrow> Time \<Rightarrow> bool" where
  "Before t u = (sint (ns t) < sint (ns u))"

definition After :: "Time \<Rightarrow> Time \<Rightarrow> bool" where
  "After t u = (sint (ns t) > sint (ns u))"

definition Sub :: "Time \<Rightarrow> Time \<Rightarrow> Duration" where
  "Sub t u =
     (let dur = (ns t - ns u) * Nanosecond in
      if Equal (Add u dur) t then dur
      else if Before t u then MinDuration
      else MaxDuration)"

definition IsZero :: "Time \<Rightarrow> bool" where
  "IsZero t = (t = ZeroTime)"

subsection \<open>Setting\<close>

record Setting =
  Enabled :: bool
  Next :: Time
  Period :: Duration

text \<open>Go's zero value \<open>Setting{}\<close>.\<close>

definition Setting_zero :: Setting where
  "Setting_zero = \<lparr>Enabled = False, Next = \<lparr>ns = 0\<rparr>, Period = 0\<rparr>"

text \<open>
  \<open>Setting.At\<close>.  The conversions \<open>uint64(...)\<close> and \<open>time.Duration(...)\<close> keep the
  bits; \<open>div\<close> on words is the unsigned division, \<open>+\<close> and \<open>*\<close> wrap.
\<close>

definition At :: "Setting \<Rightarrow> Time \<Rightarrow> Setting \<times> uint64" where
  "At s now =
     (if \<not> Enabled s then (s, 0)
      else if After (Next s) now then (s, 0)
      else if Period s = 0 then (s\<lparr>Enabled := False\<rparr>, 1)
      else let exp = 1 + Duration_Nanoseconds (Sub now (Next s)) div Period s in
        (s\<lparr>Next := Add (Next s) (Period s * exp)\<rparr>, exp))"

text \<open>
  Modelled from the spec: \<open>linuxerr.EINVAL\<close> is declared in pkg/errors/linuxerr,
  outside this package; the spec calls it "the equivalent of Linux's EINVAL".  Errors
  are Linux error numbers, and \<open>EINVAL\<close> is number 22.
\<close>

datatype error = Errno nat

definition EINVAL :: error where
  "EINVAL = Errno 22"

definition SettingFromSpecAt :: "Duration \<Rightarrow> Duration \<Rightarrow> Time \<Rightarrow> error + Setting" where
  "SettingFromSpecAt val interval now =
     (if sint val < 0 then Inl EINVAL
      else if val = 0 then Inr (Setting_zero\<lparr>Period := interval\<rparr>)
      else Inr \<lparr>Enabled = True, Next = Add now val, Period = interval\<rparr>)"

definition SettingFromAbsSpec :: "Time \<Rightarrow> Duration \<Rightarrow> error + Setting" where
  "SettingFromAbsSpec val interval =
     (if Before val ZeroTime then Inl EINVAL
      else if IsZero val then Inr (Setting_zero\<lparr>Period := interval\<rparr>)
      else Inr \<lparr>Enabled = True, Next = val, Period = interval\<rparr>)"

definition SpecFromSetting :: "Time \<Rightarrow> Setting \<Rightarrow> Duration \<times> Duration" where
  "SpecFromSetting now s =
     (if \<not> Enabled s then (0, Period s) else (Sub (Next s) now, Period s))"

subsection \<open>Clock and Listener\<close>

text \<open>
  A \<open>Clock\<close> as one call observes it: the reading \<open>Now()\<close> and the estimate
  \<open>WallTimeUntil\<close>.  Every call on a timer is given the clock it samples, so a clock
  that jumps or runs backwards is a sequence of calls with different readings.  The
  calls are modelled one at a time (they run under \<open>Timer.mu\<close>), so the clock read
  before locking is the clock read after locking.
\<close>

record Clock =
  Now :: Time
  WallTimeUntil :: "Time \<Rightarrow> Time \<Rightarrow> Duration"

text \<open>\<open>WallRateClock.WallTimeUntil\<close>.\<close>

definition WallRate_WallTimeUntil :: "Time \<Rightarrow> Time \<Rightarrow> Duration" where
  "WallRate_WallTimeUntil t now = Sub t now"

definition SettingFromSpec :: "Duration \<Rightarrow> Duration \<Rightarrow> Clock \<Rightarrow> error + Setting" where
  "SettingFromSpec val interval c = SettingFromSpecAt val interval (Now c)"

text \<open>\<open>NoClockEvents.EventRegister\<close> returns \<open>nil\<close>: no error.\<close>

definition NoClockEvents_EventRegister :: "'e \<Rightarrow> error option" where
  "NoClockEvents_EventRegister e = None"

text \<open>
  A \<open>Listener\<close> is an object with a state of its own (type \<open>'l\<close>):
  \<open>NotifyTimer(exp, setting)\<close> maps that state to the new state, the returned setting
  and the \<open>update\<close> flag.
\<close>

type_synonym 'l Listener = "'l \<Rightarrow> uint64 \<Rightarrow> Setting \<Rightarrow> 'l \<times> Setting \<times> bool"

text \<open>
  \<open>ChannelNotifier\<close>: the state is whether the one-slot channel holds an item; the
  send is dropped when it does.
\<close>

definition ChannelNotifier :: "bool Listener" where
  "ChannelNotifier full exp s = (True, Setting_zero, False)"

subsection \<open>Timer\<close>

datatype timerPauseState = timerUnpaused | timerPaused | timerDestroyed

text \<open>
  What the outside sees a timer do: a call of the listener with its arguments, and a
  call of the function \<open>f\<close> given to \<open>SwapAnd\<close>.
\<close>

datatype event = Notified uint64 Setting | Called_f

text \<open>
  The state under \<open>Timer.mu\<close>: the setting, the pause state and the kicker
  (\<open>None\<close> when stopped, \<open>Some d\<close> when reset to fire after \<open>d\<close>), together
  with the state of the immutable listener and the record of the calls made so far.
  Of the channel \<open>events\<close> the state keeps whether it has been closed.  The
  goroutine that calls \<open>Tick\<close> is not part of the state: its ticks are \<open>Tick\<close>
  calls in a sequence of calls.
\<close>

record 'l Timer =
  setting :: Setting
  pauseState :: timerPauseState
  kicker :: "Duration option"
  events_closed :: bool
  listener :: 'l
  trace :: "event list"

text \<open>
  The panics: \<open>Get\<close> and \<open>SwapAnd\<close> on a timer that is not unpaused, and the
  \<open>close\<close> of a channel that is closed already.
\<close>

datatype panic =
    Panic_Get timerPauseState
  | Panic_SwapAnd timerPauseState
  | Panic_close_of_closed_channel

definition NewTimer :: "'l \<Rightarrow> 'l Timer" where
  "NewTimer l =
     \<lparr>setting = Setting_zero, pauseState = timerUnpaused, kicker = Some 0,
      events_closed = False,
      listener = l, trace = []\<rparr>"

definition resetKickerLocked :: "Clock \<Rightarrow> Time \<Rightarrow> 'l Timer \<Rightarrow> 'l Timer" where
  "resetKickerLocked c now t =
     (if Enabled (setting t)
      then t\<lparr>kicker := Some (WallTimeUntil c (Next (setting t)) now)\<rparr>
      else t)"

text \<open>
  One call \<open>t.listener.NotifyTimer(exp, s)\<close>: the listener's state changes, the call
  is recorded, and the listener's answer is returned.
\<close>

definition NotifyTimer :: "'l Listener \<Rightarrow> uint64 \<Rightarrow> Setting \<Rightarrow> 'l Timer \<Rightarrow> (Setting \<times> bool) \<times> 'l Timer" where
  "NotifyTimer L exp s t =
     (case L (listener t) exp s of
        (l', newS, ok) \<Rightarrow>
          ((newS, ok), t\<lparr>listener := l', trace := trace t @ [Notified exp s]\<rparr>))"

text \<open>
  The step shared by \<open>Tick\<close>, \<open>Get\<close> and the end of \<open>SwapAnd\<close>:
  \<open>if exp > 0 { if newS, ok := t.listener.NotifyTimer(exp, t.setting); ok { t.setting = newS } }\<close>.
\<close>

definition notify_and_update :: "'l Listener \<Rightarrow> uint64 \<Rightarrow> 'l Timer \<Rightarrow> 'l Timer" where
  "notify_and_update L exp t =
     (if exp > 0
      then (case NotifyTimer L exp (setting t) t of
              ((newS, ok), t') \<Rightarrow> if ok then t'\<lparr>setting := newS\<rparr> else t')
      else t)"

text \<open>
  \<open>Destroy\<close> writes the setting and the pause state, stops the kicker and closes
  \<open>events\<close>.  The \<open>close\<close> comes last and panics when the channel is closed
  already, that is on a second \<open>Destroy\<close>: the result is the state written and the
  panic, if there is one.
\<close>

definition Destroy :: "'l Timer \<Rightarrow> 'l Timer \<times> panic option" where
  "Destroy t =
     (t\<lparr>setting := (setting t)\<lparr>Enabled := False\<rparr>,
        pauseState := timerDestroyed,
        kicker := None,
        events_closed := True\<rparr>,
      if events_closed t then Some Panic_close_of_closed_channel else None)"

definition Tick :: "Clock \<Rightarrow> 'l Listener \<Rightarrow> 'l Timer \<Rightarrow> 'l Timer" where
  "Tick c L t =
     (let now = Now c in
      if pauseState t \<noteq> timerUnpaused then t
      else case At (setting t) now of
        (s, exp) \<Rightarrow> resetKickerLocked c now (notify_and_update L exp (t\<lparr>setting := s\<rparr>)))"

definition Pause :: "'l Timer \<Rightarrow> 'l Timer" where
  "Pause t =
     (if pauseState t \<noteq> timerUnpaused then t
      else t\<lparr>pauseState := timerPaused, kicker := None\<rparr>)"

definition Resume :: "'l Timer \<Rightarrow> 'l Timer" where
  "Resume t =
     (if pauseState t \<noteq> timerPaused then t
      else t\<lparr>pauseState := timerUnpaused, kicker := Some 0\<rparr>)"

definition Get :: "Clock \<Rightarrow> 'l Listener \<Rightarrow> 'l Timer \<Rightarrow> panic + (Time \<times> Setting) \<times> 'l Timer" where
  "Get c L t =
     (let now = Now c in
      if pauseState t \<noteq> timerUnpaused then Inl (Panic_Get (pauseState t))
      else case At (setting t) now of
        (s, exp) \<Rightarrow>
          Inr ((now, s), resetKickerLocked c now (notify_and_update L exp (t\<lparr>setting := s\<rparr>))))"

text \<open>
  \<open>SwapAnd\<close>.  The function \<open>f\<close> may not call the timer; what it can change is
  the world outside, here the listener's state.  \<open>None\<close> is Go's \<open>nil\<close>.
\<close>

definition SwapAnd ::
  "Clock \<Rightarrow> 'l Listener \<Rightarrow> Setting \<Rightarrow> ('l \<Rightarrow> 'l) option \<Rightarrow> 'l Timer
    \<Rightarrow> panic + (Time \<times> Setting) \<times> 'l Timer" where
  "SwapAnd c L s f t =
     (let now = Now c in
      if pauseState t \<noteq> timerUnpaused then Inl (Panic_SwapAnd (pauseState t))
      else case At (setting t) now of
        (oldS, oldExp) \<Rightarrow>
          let t1 = (if oldExp > 0 then snd (NotifyTimer L oldExp oldS t) else t);
              t2 = (case f of
                      None \<Rightarrow> t1
                    | Some g \<Rightarrow> t1\<lparr>listener := g (listener t1), trace := trace t1 @ [Called_f]\<rparr>)
          in case At s now of
            (newS, newExp) \<Rightarrow>
              Inr ((now, oldS),
                   resetKickerLocked c now (notify_and_update L newExp (t2\<lparr>setting := newS\<rparr>))))"

definition Swap ::
  "Clock \<Rightarrow> 'l Listener \<Rightarrow> Setting \<Rightarrow> 'l Timer \<Rightarrow> panic + (Time \<times> Setting) \<times> 'l Timer" where
  "Swap c L s t = SwapAnd c L s None t"

subsection \<open>Sequences of calls\<close>

text \<open>
  The calls made on a timer after \<open>NewTimer\<close>.  \<open>SetClock\<close> is left out: it calls
  no listener, and it may not be called on a destroyed timer.
\<close>

datatype 'l call =
    Call_Tick Clock
  | Call_Get Clock
  | Call_Swap Clock Setting
  | Call_SwapAnd Clock Setting "('l \<Rightarrow> 'l) option"
  | Call_Pause
  | Call_Resume
  | Call_Destroy

text \<open>
  The state a call of \<open>Get\<close> or of a swap leaves, and its panic if there is one.
  They panic before they change anything, so the state at a panic is the state before
  the call.
\<close>

definition dropping_result ::
  "'l Timer \<Rightarrow> panic + ('r \<times> 'l Timer) \<Rightarrow> 'l Timer \<times> panic option" where
  "dropping_result t r = (case r of Inl p \<Rightarrow> (t, Some p) | Inr (v, t') \<Rightarrow> (t', None))"

text \<open>One call: the state it leaves and its panic, if there is one.\<close>

fun step :: "'l Listener \<Rightarrow> 'l call \<Rightarrow> 'l Timer \<Rightarrow> 'l Timer \<times> panic option" where
  "step L (Call_Tick c) t = (Tick c L t, None)"
| "step L (Call_Get c) t = dropping_result t (Get c L t)"
| "step L (Call_Swap c s) t = dropping_result t (Swap c L s t)"
| "step L (Call_SwapAnd c s f) t = dropping_result t (SwapAnd c L s f t)"
| "step L Call_Pause t = (Pause t, None)"
| "step L Call_Resume t = (Resume t, None)"
| "step L Call_Destroy t = Destroy t"

text \<open>
  A sequence of calls stops at the first panic; the result is the state reached and
  the panic, if there was one.
\<close>

fun run :: "'l Listener \<Rightarrow> 'l call list \<Rightarrow> 'l Timer \<Rightarrow> 'l Timer \<times> panic option" where
  "run L [] t = (t, None)"
| "run L (c # cs) t =
     (case step L c t of
        (t', Some p) \<Rightarrow> (t', Some p)
      | (t', None) \<Rightarrow> run L cs t')"

text \<open>The listener was called with a positive number of expirations.\<close>

fun positive_notification :: "event \<Rightarrow> bool" where
  "positive_notification (Notified exp s) = (exp > 0)"
| "positive_notification Called_f = True"

text \<open>A signed 64-bit value, saturated: what \<open>Add\<close> and \<open>Sub\<close> compute.\<close>

definition clamp64 :: "int \<Rightarrow> int" where
  "clamp64 k = max (- 9223372036854775808) (min 9223372036854775807 k)"

subsection \<open>Clocks and listeners used as examples\<close>

text \<open>A wall-rate clock that reads \<open>n\<close> nanoseconds.\<close>

definition clock_at :: "int64 \<Rightarrow> Clock" where
  "clock_at n = \<lparr>Now = \<lparr>ns = n\<rparr>, WallTimeUntil = WallRate_WallTimeUntil\<rparr>"

text \<open>
  A listener that counts its calls and always answers with the setting \<open>r\<close> and
  \<open>update = true\<close>.
\<close>

definition replacing_listener :: "Setting \<Rightarrow> nat Listener" where
  "replacing_listener r count exp s = (count + 1, r, True)"

section \<open>Signed 64-bit arithmetic\<close>

lemma sint64_range:
  "- 9223372036854775808 \<le> sint (w::int64) \<and> sint w \<le> 9223372036854775807"
  using sint_ge [of w] sint_lt [of w] by simp

lemma sint64_add:
  fixes a b :: int64
  assumes "- 9223372036854775808 \<le> sint a + sint b"
    and "sint a + sint b \<le> 9223372036854775807"
  shows "sint (a + b) = sint a + sint b"
  using assms by (simp add: sint_word_add signed_take_bit_int_eq_self)

lemma sint64_diff:
  fixes a b :: int64
  assumes "- 9223372036854775808 \<le> sint a - sint b"
    and "sint a - sint b \<le> 9223372036854775807"
  shows "sint (a - b) = sint a - sint b"
  using assms by (simp add: sint_word_diff signed_take_bit_int_eq_self)

lemma sint_MaxInt64: "sint MaxInt64 = 9223372036854775807"
  by (simp add: MaxInt64_def)

lemma sint_MinInt64: "sint MinInt64 = - 9223372036854775808"
  by (simp add: MinInt64_def)

lemma sint64_inj: "sint (a::int64) = sint b \<Longrightarrow> a = b"
  by (rule signed_word_eqI)

lemma uint64_nonneg:
  fixes w :: int64
  assumes "0 \<le> sint w"
  shows "uint w = sint w"
proof -
  have "sint w < 2 ^ 64" using sint64_range [of w] by simp
  then show ?thesis using assms by (simp add: uint_sint take_bit_int_eq_self)
qed

text \<open>A difference just above or just below the signed range wraps by \<open>2 ^ 64\<close>.\<close>

lemma signed_wrap_above:
  assumes "9223372036854775808 \<le> k" and "k < 18446744073709551616"
  shows "signed_take_bit 63 (k::int) = k - 18446744073709551616"
proof -
  have "((k - 9223372036854775808) + 18446744073709551616) mod 18446744073709551616
      = (k - 9223372036854775808) mod 18446744073709551616"
    by (rule mod_add_self2)
  also have "\<dots> = k - 9223372036854775808"
    using assms by (intro mod_pos_pos_trivial) auto
  finally have "(k + 9223372036854775808) mod 18446744073709551616 = k - 9223372036854775808"
    by (simp add: add.commute)
  then show ?thesis
    by (simp add: signed_take_bit_eq_take_bit_shift take_bit_eq_mod)
qed

lemma signed_wrap_below:
  assumes "- 18446744073709551616 \<le> k" and "k < - 9223372036854775808"
  shows "signed_take_bit 63 (k::int) = k + 18446744073709551616"
proof -
  have "((k + 9223372036854775808) + 18446744073709551616) mod 18446744073709551616
      = (k + 9223372036854775808) mod 18446744073709551616"
    by (rule mod_add_self2)
  moreover have "((k + 9223372036854775808) + 18446744073709551616) mod 18446744073709551616
      = (k + 9223372036854775808) + 18446744073709551616"
    using assms by (intro mod_pos_pos_trivial) auto
  ultimately have "(k + 9223372036854775808) mod 18446744073709551616 = k + 27670116110564327424"
    by (simp add: add.commute)
  then show ?thesis
    by (simp add: signed_take_bit_eq_take_bit_shift take_bit_eq_mod)
qed

lemma int_div_le_dividend: "0 \<le> (x::int) \<Longrightarrow> x div k \<le> x"
  by (cases "x = 0") (simp_all add: int_div_le_self)

section \<open>Add and Sub saturate\<close>

text \<open>\<open>Time.Add\<close> is the addition of integers, cut to the signed 64-bit range.\<close>

lemma Add_sint: "sint (ns (Add t d)) = clamp64 (sint (ns t) + sint d)"
proof -
  let ?a = "sint (ns t)" and ?d = "sint d"
  have ra: "- 9223372036854775808 \<le> ?a \<and> ?a \<le> 9223372036854775807" by (rule sint64_range)
  have rd: "- 9223372036854775808 \<le> ?d \<and> ?d \<le> 9223372036854775807" by (rule sint64_range)
  have hi: "0 < ?a \<Longrightarrow> sint (MaxInt64 - ns t) = 9223372036854775807 - ?a"
    using ra by (simp add: sint64_diff sint_MaxInt64)
  have lo: "?a < 0 \<Longrightarrow> sint (MinInt64 - ns t) = - 9223372036854775808 - ?a"
    using ra by (simp add: sint64_diff sint_MinInt64)
  consider (pos) "0 < ?a" | (neg) "?a < 0" | (zero) "?a = 0" by linarith
  then show ?thesis
  proof cases
    case pos
    show ?thesis
    proof (cases "?d > 9223372036854775807 - ?a")
      case True
      then show ?thesis using pos hi
        by (simp add: Add_def Duration_Nanoseconds_def MaxTime_def sint_MaxInt64 clamp64_def)
    next
      case False
      then have "sint (ns t + d) = ?a + ?d" using pos rd by (intro sint64_add) auto
      then show ?thesis using pos hi False rd
        by (simp add: Add_def Duration_Nanoseconds_def clamp64_def)
    qed
  next
    case neg
    show ?thesis
    proof (cases "?d < - 9223372036854775808 - ?a")
      case True
      then show ?thesis using neg lo
        by (simp add: Add_def Duration_Nanoseconds_def MinTime_def sint_MinInt64 clamp64_def)
    next
      case False
      then have "sint (ns t + d) = ?a + ?d" using neg rd by (intro sint64_add) auto
      then show ?thesis using neg lo False rd
        by (simp add: Add_def Duration_Nanoseconds_def clamp64_def)
    qed
  next
    case zero
    then have "ns t = 0" using sint64_inj [of "ns t" 0] by simp
    then show ?thesis using rd by (simp add: Add_def Duration_Nanoseconds_def clamp64_def)
  qed
qed

text \<open>\<open>Time.Sub\<close> is the subtraction of integers, cut to the signed 64-bit range.\<close>

lemma Sub_sint: "sint (Sub t u) = clamp64 (sint (ns t) - sint (ns u))"
proof -
  let ?a = "sint (ns t)" and ?b = "sint (ns u)"
  let ?dur = "ns t - ns u"
  have ra: "- 9223372036854775808 \<le> ?a \<and> ?a \<le> 9223372036854775807" by (rule sint64_range)
  have rb: "- 9223372036854775808 \<le> ?b \<and> ?b \<le> 9223372036854775807" by (rule sint64_range)
  have add: "sint (ns (Add u ?dur)) = clamp64 (?b + sint ?dur)" by (rule Add_sint)
  consider (fit) "- 9223372036854775808 \<le> ?a - ?b \<and> ?a - ?b \<le> 9223372036854775807"
    | (hi) "9223372036854775807 < ?a - ?b" | (lo) "?a - ?b < - 9223372036854775808"
    by linarith
  then show ?thesis
  proof cases
    case fit
    then have d: "sint ?dur = ?a - ?b" by (simp add: sint64_diff)
    with add ra have "sint (ns (Add u ?dur)) = ?a" by (simp add: clamp64_def)
    then have "ns (Add u ?dur) = ns t" by (rule sint64_inj)
    then show ?thesis using d fit
      by (simp add: Sub_def Nanosecond_def Equal_def clamp64_def)
  next
    case hi
    then have "sint ?dur = ?a - ?b - 18446744073709551616"
      using ra rb by (simp add: sint_word_diff signed_wrap_above)
    with add ra have "sint (ns (Add u ?dur)) = - 9223372036854775808" by (simp add: clamp64_def)
    moreover have "0 \<le> ?a" using hi rb by linarith
    ultimately have "ns (Add u ?dur) \<noteq> ns t" by auto
    then show ?thesis using hi
      by (simp add: Sub_def Nanosecond_def Equal_def Before_def MaxDuration_def sint_MaxInt64 clamp64_def)
  next
    case lo
    then have "sint ?dur = ?a - ?b + 18446744073709551616"
      using ra rb by (simp add: sint_word_diff signed_wrap_below)
    with add ra have "sint (ns (Add u ?dur)) = 9223372036854775807" by (simp add: clamp64_def)
    moreover have "?a < 0" using lo rb by linarith
    ultimately have "ns (Add u ?dur) \<noteq> ns t" by auto
    then show ?thesis using lo
      by (simp add: Sub_def Nanosecond_def Equal_def Before_def MinDuration_def sint_MinInt64 clamp64_def)
  qed
qed

lemma sint64_small:
  fixes w :: int64
  assumes "uint w \<le> 9223372036854775807"
  shows "sint w = uint w"
proof -
  have "(- 9223372036854775808 :: int) \<le> 0" by simp
  also have "0 \<le> uint w" by simp
  finally have "- (2 ^ 63) \<le> uint w" by simp
  moreover have "uint w < 2 ^ 63" using assms by simp
  ultimately have "signed_take_bit 63 (uint w) = uint w" by (rule signed_take_bit_int_eq_self)
  then show ?thesis by (simp add: sint_uint)
qed

lemma int_less_succ_div_mult:
  fixes x p :: int
  assumes "0 < p"
  shows "x < (1 + x div p) * p"
proof -
  have "x = p * (x div p) + x mod p" by simp
  moreover have "x mod p < p" using assms by (rule pos_mod_bound)
  ultimately have "x < p * (x div p) + p" by linarith
  then show ?thesis by (simp add: algebra_simps)
qed

lemma int_succ_div_mult_le:
  fixes x p :: int
  assumes "0 < p"
  shows "(1 + x div p) * p \<le> x + p"
proof -
  have "x = p * (x div p) + x mod p" by simp
  moreover have "0 \<le> x mod p" using assms by simp
  ultimately have "p * (x div p) \<le> x" by linarith
  then show ?thesis by (simp add: algebra_simps)
qed

lemma sint_step:
  fixes p e :: int64
  assumes "uint e * uint p \<le> 9223372036854775807"
  shows "sint (p * e) = uint e * uint p"
proof -
  have "uint p * uint e < 2 ^ LENGTH(64)" using assms by (simp add: mult.commute)
  then have "uint (p * e) = uint p * uint e" by (simp only: uint_mult_lem)
  then show ?thesis using assms by (simp add: sint64_small mult.commute)
qed

lemmas time_defs = At_def Sub_def Add_def Equal_def Before_def After_def
  Duration_Nanoseconds_def Nanosecond_def MaxInt64_def MinInt64_def MaxTime_def MinTime_def
  MaxDuration_def MinDuration_def Let_def

lemmas timer_defs = Tick_def Get_def Swap_def SwapAnd_def Pause_def Resume_def Destroy_def
  NewTimer_def resetKickerLocked_def NotifyTimer_def notify_and_update_def clock_at_def
  WallRate_WallTimeUntil_def ChannelNotifier_def replacing_listener_def Setting_zero_def
  dropping_result_def

section \<open>Time.Sub\<close>

text \<open>
  C5.  \<open>t.Sub(u)\<close> is the wrapped difference \<open>t.ns - u.ns\<close> whenever adding it back to
  \<open>u\<close> gives \<open>t\<close>; otherwise it is \<open>MinDuration\<close> if \<open>t\<close> is before \<open>u\<close> and
  \<open>MaxDuration\<close> if not.  Hence, where \<open>t.Sub(u)\<close> is neither \<open>MinDuration\<close> nor
  \<open>MaxDuration\<close>, \<open>u.Add(t.Sub(u)) == t\<close>.
\<close>

theorem Sub_round_trip:
  "Sub t u =
     (if Add u (ns t - ns u) = t then ns t - ns u
      else if Before t u then MinDuration else MaxDuration)
   \<and> (Sub t u \<noteq> MinDuration \<longrightarrow> Sub t u \<noteq> MaxDuration \<longrightarrow> Add u (Sub t u) = t)"
proof -
  have eq: "Equal x t = (x = t)" for x by (cases x, cases t) (simp add: Equal_def)
  show ?thesis
    by (simp add: Sub_def Nanosecond_def eq Let_def)
qed

text \<open>
  The round trip at \<open>t = 5\<close>, \<open>u = 3\<close>, and the two saturated results.
\<close>

theorem Sub_round_trip_witness:
  "Sub \<lparr>ns = 5\<rparr> \<lparr>ns = 3\<rparr> = 2 \<and> Sub \<lparr>ns = 5\<rparr> \<lparr>ns = 3\<rparr> \<noteq> MinDuration
   \<and> Sub \<lparr>ns = 5\<rparr> \<lparr>ns = 3\<rparr> \<noteq> MaxDuration
   \<and> Add \<lparr>ns = 3\<rparr> (Sub \<lparr>ns = 5\<rparr> \<lparr>ns = 3\<rparr>) = \<lparr>ns = 5\<rparr>
   \<and> Sub MaxTime \<lparr>ns = - 1\<rparr> = MaxDuration
   \<and> Sub MinTime \<lparr>ns = 1\<rparr> = MinDuration"
  using Sub_round_trip [of "\<lparr>ns = 5\<rparr>" "\<lparr>ns = 3\<rparr>"]
    Sub_round_trip [of MaxTime "\<lparr>ns = - 1\<rparr>"]
    Sub_round_trip [of MinTime "\<lparr>ns = 1\<rparr>"]
  by (simp add: Add_def Duration_Nanoseconds_def MaxInt64_def MinInt64_def MinDuration_def
      MaxDuration_def MaxTime_def MinTime_def Before_def)

section \<open>Setting.At\<close>

text \<open>The last branch of \<open>At\<close>: the timer is enabled, due and periodic.\<close>

lemma At_fire:
  assumes "Enabled s" and "\<not> After (Next s) now" and "Period s \<noteq> 0"
  shows "At s now =
    (s\<lparr>Next := Add (Next s) (Period s * (1 + Sub now (Next s) div Period s))\<rparr>,
     1 + Sub now (Next s) div Period s)"
  using assms by (simp add: At_def Duration_Nanoseconds_def Let_def)

lemma uint_Sub_not_After:
  assumes "\<not> After (Next s) now"
  shows "uint (Sub now (Next s)) = min (sint (ns now) - sint (ns (Next s))) 9223372036854775807"
proof -
  have le: "sint (ns (Next s)) \<le> sint (ns now)" using assms by (simp add: After_def)
  have "sint (Sub now (Next s)) = min (sint (ns now) - sint (ns (Next s))) 9223372036854775807"
    using le by (simp add: Sub_sint clamp64_def)
  moreover from this le have "0 \<le> sint (Sub now (Next s))" by simp
  ultimately show ?thesis by (simp add: uint64_nonneg)
qed

text \<open>The count of expirations as an integer: the addition of 1 does not wrap.\<close>

lemma uint_expirations:
  assumes "\<not> After (Next s) now"
  shows "uint (1 + Sub now (Next s) div Period s)
    = 1 + min (sint (ns now) - sint (ns (Next s))) 9223372036854775807 div uint (Period s)"
proof -
  let ?D = "Sub now (Next s)"
  have D: "uint ?D = min (sint (ns now) - sint (ns (Next s))) 9223372036854775807"
    using assms(1) by (rule uint_Sub_not_After)
  have q: "uint (?D div Period s) = uint ?D div uint (Period s)" by (rule uint_div)
  have "uint ?D div uint (Period s) \<le> uint ?D"
    by (simp add: int_div_le_dividend)
  with D have "uint ?D div uint (Period s) \<le> 9223372036854775807" by simp
  moreover have "0 \<le> uint ?D div uint (Period s)" by (simp add: div_int_pos_iff)
  ultimately have "(1 + uint (?D div Period s)) mod 18446744073709551616 = 1 + uint (?D div Period s)"
    using q by (intro mod_pos_pos_trivial) auto
  then have "uint (1 + ?D div Period s) = 1 + uint ?D div uint (Period s)"
    using q by (simp add: uint_word_ariths)
  then show ?thesis using D by simp
qed

lemma expirations_nonzero:
  assumes "\<not> After (Next s) now"
  shows "1 + Sub now (Next s) div Period s \<noteq> 0"
proof
  assume "1 + Sub now (Next s) div Period s = 0"
  then have "uint (1 + Sub now (Next s) div Period s) = 0" by simp
  moreover have "0 \<le> min (sint (ns now) - sint (ns (Next s))) 9223372036854775807 div uint (Period s)"
    using assms by (simp add: div_int_pos_iff After_def)
  ultimately show False using uint_expirations [OF assms] by simp
qed

text \<open>
  The same count for a positive period, read as a signed value.
\<close>

lemma At_fire_count:
  assumes "\<not> After (Next s) now" and "0 < sint (Period s)"
  shows "uint (1 + Sub now (Next s) div Period s)
    = 1 + min (sint (ns now) - sint (ns (Next s))) 9223372036854775807 div sint (Period s)"
proof -
  have "uint (Period s) = sint (Period s)" using assms(2) by (simp add: uint64_nonneg)
  then show ?thesis using uint_expirations [OF assms(1)] by simp
qed

text \<open>
  The new \<open>Next\<close>: as long as the step \<open>Period * exp\<close> is itself a non-negative
  \<open>Duration\<close>, \<open>Add\<close> returns the sum cut at \<open>MaxTime\<close>.
\<close>

lemma At_fire_next:
  fixes e :: uint64
  assumes pos: "0 < sint (Period s)"
    and fits: "uint e * sint (Period s) \<le> 9223372036854775807"
  shows "sint (ns (Add (Next s) (Period s * e)))
    = min (sint (ns (Next s)) + uint e * sint (Period s)) 9223372036854775807"
proof -
  have up: "uint (Period s) = sint (Period s)" using pos by (simp add: uint64_nonneg)
  have "sint (Period s * e) = uint e * sint (Period s)"
    using fits up sint_step [of e "Period s"] by simp
  moreover have "0 \<le> uint e * sint (Period s)" using pos by simp
  ultimately show ?thesis
    using sint64_range [of "ns (Next s)"] by (simp add: Add_sint clamp64_def)
qed

text \<open>
  C1, amended.  For a setting that is enabled with period \<open>p > 0\<close> and \<open>Next = n0\<close>, and
  \<open>now \<ge> n0\<close>, \<open>At(now)\<close> returns a setting that is still enabled with period \<open>p\<close>,
  and \<open>exp = 1 + floor(d / p)\<close> where \<open>d\<close> is \<open>now - n0\<close> saturated at \<open>MaxDuration\<close>
  (what \<open>now.Sub(n0)\<close> returns).  When the step \<open>exp * p\<close> does not exceed
  \<open>MaxDuration\<close>, the new \<open>Next\<close> is \<open>n0 + exp * p\<close> saturated at \<open>MaxTime\<close>
  (what \<open>Add\<close> returns).
\<close>

theorem At_periodic:
  assumes "Enabled s" and "0 < sint (Period s)"
    and "sint (ns (Next s)) \<le> sint (ns now)"
  shows "Enabled (fst (At s now)) \<and> Period (fst (At s now)) = Period s
     \<and> uint (snd (At s now))
         = 1 + min (sint (ns now) - sint (ns (Next s))) 9223372036854775807 div sint (Period s)
     \<and> (uint (snd (At s now)) * sint (Period s) \<le> 9223372036854775807 \<longrightarrow>
          sint (ns (Next (fst (At s now))))
            = min (sint (ns (Next s)) + uint (snd (At s now)) * sint (Period s))
                9223372036854775807)"
proof -
  let ?e = "1 + Sub now (Next s) div Period s"
  have na: "\<not> After (Next s) now" using assms(3) by (simp add: After_def)
  have nz: "Period s \<noteq> 0" using assms(2) by auto
  have at: "At s now = (s\<lparr>Next := Add (Next s) (Period s * ?e)\<rparr>, ?e)"
    using assms(1) na nz by (rule At_fire)
  have count: "uint ?e
      = 1 + min (sint (ns now) - sint (ns (Next s))) 9223372036854775807 div sint (Period s)"
    using na assms(2) by (rule At_fire_count)
  have "sint (ns (Add (Next s) (Period s * ?e)))
      = min (sint (ns (Next s)) + uint ?e * sint (Period s)) 9223372036854775807"
    if "uint ?e * sint (Period s) \<le> 9223372036854775807"
    using assms(2) that by (rule At_fire_next)
  then show ?thesis using at assms(1) count by simp
qed

text \<open>
  The second scenario of the spec: \<open>Next = 10\<close>, \<open>Period = 10\<close>, \<open>now = 35\<close> gives three
  expirations and \<open>Next = 40\<close>.
\<close>

theorem At_periodic_witness:
  "Enabled \<lparr>Enabled = True, Next = \<lparr>ns = 10\<rparr>, Period = 10\<rparr>
   \<and> 0 < sint (Period \<lparr>Enabled = True, Next = \<lparr>ns = 10\<rparr>, Period = 10\<rparr>)
   \<and> sint (ns (Next \<lparr>Enabled = True, Next = \<lparr>ns = 10\<rparr>, Period = 10\<rparr>)) \<le> sint (ns \<lparr>ns = 35\<rparr>)
   \<and> uint (snd (At \<lparr>Enabled = True, Next = \<lparr>ns = 10\<rparr>, Period = 10\<rparr> \<lparr>ns = 35\<rparr>)) = 3
   \<and> sint (ns (Next (fst (At \<lparr>Enabled = True, Next = \<lparr>ns = 10\<rparr>, Period = 10\<rparr> \<lparr>ns = 35\<rparr>)))) = 40"
  using At_periodic [of "\<lparr>Enabled = True, Next = \<lparr>ns = 10\<rparr>, Period = 10\<rparr>" "\<lparr>ns = 35\<rparr>"]
  by simp

text \<open>
  C1 as stated fails.  With \<open>Next = 2 ^ 62\<close>, \<open>Period = 2 ^ 62\<close> and \<open>now = 2 ^ 62\<close> there
  is one expiration, and \<open>Add\<close> saturates: the new \<open>Next\<close> is \<open>MaxTime\<close>, which is
  not \<open>n0 + exp * p\<close>, neither in 64-bit arithmetic nor as an integer.  With \<open>Next = -1\<close>,
  \<open>Period = 1\<close> and \<open>now = MaxTime\<close>, \<open>Sub\<close> saturates: the count is \<open>2 ^ 63\<close>, not
  \<open>1 + (now.ns - n0.ns) / p = 2 ^ 63 + 1\<close> computed on unsigned 64-bit values.
\<close>

theorem At_periodic_counterexample:
  "Enabled \<lparr>Enabled = True, Next = \<lparr>ns = 4611686018427387904\<rparr>, Period = 4611686018427387904\<rparr>
   \<and> 0 < sint (Period \<lparr>Enabled = True, Next = \<lparr>ns = 4611686018427387904\<rparr>, Period = 4611686018427387904\<rparr>)
   \<and> sint (ns (Next \<lparr>Enabled = True, Next = \<lparr>ns = 4611686018427387904\<rparr>, Period = 4611686018427387904\<rparr>)) \<le> sint (ns \<lparr>ns = 4611686018427387904\<rparr>)
   \<and> At \<lparr>Enabled = True, Next = \<lparr>ns = 4611686018427387904\<rparr>, Period = 4611686018427387904\<rparr> \<lparr>ns = 4611686018427387904\<rparr>
       = (\<lparr>Enabled = True, Next = MaxTime, Period = 4611686018427387904\<rparr>, 1)
   \<and> ns MaxTime \<noteq> 4611686018427387904 + 1 * 4611686018427387904
   \<and> sint (ns MaxTime) \<noteq> 4611686018427387904 + 1 * 4611686018427387904
   \<and> Enabled \<lparr>Enabled = True, Next = \<lparr>ns = - 1\<rparr>, Period = 1\<rparr>
   \<and> 0 < sint (Period \<lparr>Enabled = True, Next = \<lparr>ns = - 1\<rparr>, Period = 1\<rparr>)
   \<and> sint (ns (Next \<lparr>Enabled = True, Next = \<lparr>ns = - 1\<rparr>, Period = 1\<rparr>)) \<le> sint (ns MaxTime)
   \<and> snd (At \<lparr>Enabled = True, Next = \<lparr>ns = - 1\<rparr>, Period = 1\<rparr> MaxTime) = 9223372036854775808
   \<and> 1 + (ns MaxTime - ns (Next \<lparr>Enabled = True, Next = \<lparr>ns = - 1\<rparr>, Period = 1\<rparr>)) div Period \<lparr>Enabled = True, Next = \<lparr>ns = - 1\<rparr>, Period = 1\<rparr> = (9223372036854775809 :: uint64)"
  by (simp add: time_defs)

text \<open>
  C2, amended.  Let \<open>(s', e) = s.At(now)\<close> for a setting with \<open>Period \<ge> 0\<close>, where the
  step \<open>e * Period\<close> does not exceed \<open>MaxDuration\<close> and, if \<open>now\<close> is \<open>MaxTime\<close>, the
  call was not a periodic firing (\<open>e = 0\<close> or \<open>Period = 0\<close>).  Then for every
  \<open>now' \<le> now\<close>, \<open>s'.At(now') = (s', 0)\<close>.
\<close>

theorem At_earlier_unchanged:
  assumes inv: "0 \<le> sint (Period s)"
    and at: "At s now = (s', e)"
    and fits: "uint e * sint (Period s) \<le> 9223372036854775807"
    and nmax: "now \<noteq> MaxTime \<or> e = 0 \<or> Period s = 0"
    and earlier: "sint (ns now') \<le> sint (ns now)"
  shows "At s' now' = (s', 0)"
proof (cases "Enabled s \<and> \<not> After (Next s) now \<and> Period s \<noteq> 0")
  case False
  then consider (off) "\<not> Enabled s" | (later) "Enabled s" "After (Next s) now"
    | (once) "Enabled s" "\<not> After (Next s) now" "Period s = 0" by blast
  then show ?thesis
  proof cases
    case off
    then show ?thesis using at by (auto simp: At_def)
  next
    case later
    then have "s' = s" using at by (auto simp: At_def)
    moreover have "After (Next s) now'" using later earlier by (simp add: After_def)
    ultimately show ?thesis using later by (simp add: At_def)
  next
    case once
    then have "\<not> Enabled s'" using at by (auto simp: At_def)
    then show ?thesis by (simp add: At_def)
  qed
next
  case True
  let ?a = "sint (ns now)" and ?b = "sint (ns (Next s))" and ?p = "sint (Period s)"
  have en: "Enabled s" and na: "\<not> After (Next s) now" and nz: "Period s \<noteq> 0"
    using True by simp_all
  have le: "?b \<le> ?a" using na by (simp add: After_def)
  have "?p \<noteq> 0" using nz sint64_inj [of "Period s" 0] by auto
  with inv have pos: "0 < ?p" by simp
  have fire: "At s now =
      (s\<lparr>Next := Add (Next s) (Period s * (1 + Sub now (Next s) div Period s))\<rparr>,
       1 + Sub now (Next s) div Period s)"
    using en na nz by (rule At_fire)
  have e0: "e \<noteq> 0" using fire at expirations_nonzero [OF na] by auto
  with nmax nz have "now \<noteq> MaxTime" by simp
  then have "ns now \<noteq> MaxInt64" by (cases now) (auto simp: MaxTime_def)
  then have "?a \<noteq> 9223372036854775807"
    using sint64_inj [of "ns now" MaxInt64] by (auto simp: sint_MaxInt64)
  then have amax: "?a < 9223372036854775807" using sint64_range [of "ns now"] by simp
  have per: "Enabled s'" "uint e = 1 + min (?a - ?b) 9223372036854775807 div ?p"
    using fire at en At_fire_count [OF na pos] by auto
  have nx: "sint (ns (Next s')) = min (?b + uint e * ?p) 9223372036854775807"
    using fire at At_fire_next [OF pos fits] by auto
  have "min (?a - ?b) 9223372036854775807 < uint e * ?p"
    using int_less_succ_div_mult [OF pos, of "min (?a - ?b) 9223372036854775807"] per(2) by simp
  with fits have "?a - ?b < uint e * ?p" by simp
  then have "?a < ?b + uint e * ?p" by simp
  with amax nx have "?a < sint (ns (Next s'))" by simp
  with earlier have "After (Next s') now'" by (simp add: After_def)
  then show ?thesis using per(1) by (simp add: At_def)
qed

text \<open>
  The fourth scenario of the spec: after the advance to \<open>now = 35\<close> the clock is reset
  to \<open>5\<close>; the setting stays at \<open>Next = 40\<close> and nothing expires.
\<close>

theorem At_earlier_unchanged_witness:
  "0 \<le> sint (Period \<lparr>Enabled = True, Next = \<lparr>ns = 10\<rparr>, Period = 10\<rparr>)
   \<and> At \<lparr>Enabled = True, Next = \<lparr>ns = 10\<rparr>, Period = 10\<rparr> \<lparr>ns = 35\<rparr> = (\<lparr>Enabled = True, Next = \<lparr>ns = 40\<rparr>, Period = 10\<rparr>, 3)
   \<and> uint (3 :: uint64) * sint (Period \<lparr>Enabled = True, Next = \<lparr>ns = 10\<rparr>, Period = 10\<rparr>) \<le> 9223372036854775807
   \<and> \<lparr>ns = 35\<rparr> \<noteq> MaxTime
   \<and> sint (ns \<lparr>ns = 5\<rparr>) \<le> sint (ns \<lparr>ns = 35\<rparr>)
   \<and> At \<lparr>Enabled = True, Next = \<lparr>ns = 40\<rparr>, Period = 10\<rparr> \<lparr>ns = 5\<rparr> = (\<lparr>Enabled = True, Next = \<lparr>ns = 40\<rparr>, Period = 10\<rparr>, 0)"
proof -
  have at: "At \<lparr>Enabled = True, Next = \<lparr>ns = 10\<rparr>, Period = 10\<rparr> \<lparr>ns = 35\<rparr> = (\<lparr>Enabled = True, Next = \<lparr>ns = 40\<rparr>, Period = 10\<rparr>, 3)"
    by (simp add: time_defs)
  have nm: "\<lparr>ns = 35\<rparr> \<noteq> MaxTime" by (simp add: MaxTime_def MaxInt64_def)
  show ?thesis
    using at nm
      At_earlier_unchanged [of "\<lparr>Enabled = True, Next = \<lparr>ns = 10\<rparr>, Period = 10\<rparr>" "\<lparr>ns = 35\<rparr>" "\<lparr>Enabled = True, Next = \<lparr>ns = 40\<rparr>, Period = 10\<rparr>" 3 "\<lparr>ns = 5\<rparr>"]
    by simp
qed

text \<open>
  C2 as stated fails.  At \<open>now = MaxTime\<close> a periodic setting with \<open>Next = MaxTime\<close>
  fires and \<open>Add\<close> saturates, so \<open>Next\<close> stays at \<open>MaxTime\<close> and the same call, with
  \<open>now' = now\<close>, fires again.  And with \<open>Next = - (2 ^ 62)\<close>, \<open>Period = 2 ^ 62\<close> and
  \<open>now = 2 ^ 62 - 1\<close> the step \<open>2 * 2 ^ 62\<close> is not a non-negative \<open>Duration\<close>: the
  new \<open>Next\<close> is \<open>MinTime\<close>, and the call at the earlier time \<open>0\<close> fires again.
\<close>

theorem At_earlier_unchanged_counterexample:
  "At \<lparr>Enabled = True, Next = MaxTime, Period = 1\<rparr> MaxTime = (\<lparr>Enabled = True, Next = MaxTime, Period = 1\<rparr>, 1)
   \<and> sint (ns MaxTime) \<le> sint (ns MaxTime)
   \<and> At \<lparr>Enabled = True, Next = MaxTime, Period = 1\<rparr> MaxTime \<noteq> (\<lparr>Enabled = True, Next = MaxTime, Period = 1\<rparr>, 0)
   \<and> At \<lparr>Enabled = True, Next = \<lparr>ns = - 4611686018427387904\<rparr>, Period = 4611686018427387904\<rparr> \<lparr>ns = 4611686018427387903\<rparr> = (\<lparr>Enabled = True, Next = MinTime, Period = 4611686018427387904\<rparr>, 2)
   \<and> sint (ns \<lparr>ns = 0\<rparr>) \<le> sint (ns \<lparr>ns = 4611686018427387903\<rparr>)
   \<and> snd (At \<lparr>Enabled = True, Next = MinTime, Period = 4611686018427387904\<rparr> \<lparr>ns = 0\<rparr>) \<noteq> 0"
  by (simp add: time_defs)

text \<open>
  The two conditions on a periodic firing are needed: when a periodic setting fires at
  \<open>now = MaxTime\<close>, or with a step \<open>exp * Period\<close> above \<open>MaxDuration\<close>, the
  same call fires again.
\<close>

lemma At_refires:
  assumes en: "Enabled s" and pos: "0 < sint (Period s)"
    and le: "sint (ns (Next s)) \<le> sint (ns now)"
    and at: "At s now = (s', e)"
    and bad: "now = MaxTime \<or> 9223372036854775807 < uint e * sint (Period s)"
  shows "snd (At s' now) \<noteq> 0"
proof -
  let ?a = "sint (ns now)" and ?b = "sint (ns (Next s))" and ?p = "sint (Period s)"
  have na: "\<not> After (Next s) now" using le by (simp add: After_def)
  have nz: "Period s \<noteq> 0" using pos by auto
  have fire: "At s now =
      (s\<lparr>Next := Add (Next s) (Period s * (1 + Sub now (Next s) div Period s))\<rparr>,
       1 + Sub now (Next s) div Period s)"
    using en na nz by (rule At_fire)
  have e: "e = 1 + Sub now (Next s) div Period s"
    and s': "s' = s\<lparr>Next := Add (Next s) (Period s * e)\<rparr>"
    using fire at by auto
  have ue: "uint e = 1 + min (?a - ?b) 9223372036854775807 div ?p"
    using At_fire_count [OF na pos] e by simp
  have up: "uint (Period s) = ?p" using pos by (simp add: uint64_nonneg)
  have "sint (ns (Next s')) \<le> ?a"
  proof (cases "9223372036854775807 < uint e * ?p")
    case False
    with bad have "now = MaxTime" by simp
    then have "?a = 9223372036854775807" by (simp add: MaxTime_def sint_MaxInt64)
    then show ?thesis using sint64_range [of "ns (Next s')"] by simp
  next
    case True
    have "uint e * ?p \<le> min (?a - ?b) 9223372036854775807 + ?p"
      using int_succ_div_mult_le [OF pos, of "min (?a - ?b) 9223372036854775807"] ue by simp
    moreover have "?p \<le> 9223372036854775807" using sint64_range [of "Period s"] by simp
    ultimately have lt: "uint e * ?p < 18446744073709551616" by simp
    then have "uint (Period s) * uint e < 2 ^ LENGTH(64)" using up by (simp add: mult.commute)
    then have "uint (Period s * e) = uint (Period s) * uint e" by (simp only: uint_mult_lem)
    then have u: "uint (Period s * e) = uint e * ?p" using up by (simp add: mult.commute)
    have "sint (Period s * e) = uint e * ?p - 18446744073709551616"
      using True lt u signed_wrap_above [of "uint (Period s * e)"] by (simp add: sint_uint)
    then have "sint (Period s * e) < 0" using lt by simp
    then have "clamp64 (?b + sint (Period s * e)) \<le> ?b"
      using sint64_range [of "ns (Next s)"] by (simp add: clamp64_def)
    then show ?thesis using s' le by (simp add: Add_sint)
  qed
  then have "\<not> After (Next s') now" by (simp add: After_def)
  moreover have "Enabled s'" "Period s' \<noteq> 0" using s' en nz by simp_all
  ultimately show ?thesis
    using expirations_nonzero [of s' now] by (simp add: At_fire)
qed

text \<open>
  C10, amended.  \<open>At\<close> never changes \<open>Period\<close>.  It changes \<open>Next\<close> only in the
  last branch: the setting is enabled, \<open>Next \<le> now\<close> and \<open>Period\<close> is not zero;
  \<open>Period\<close> is then positive if the setting keeps the invariant \<open>Period \<ge> 0\<close>.
  When the count returned is 0, the setting returned is the setting given.
\<close>

theorem At_frame:
  "Period (fst (At s now)) = Period s
   \<and> (Next (fst (At s now)) \<noteq> Next s \<longrightarrow>
        Enabled s \<and> sint (ns (Next s)) \<le> sint (ns now) \<and> Period s \<noteq> 0
        \<and> (0 \<le> sint (Period s) \<longrightarrow> 0 < sint (Period s)))
   \<and> (snd (At s now) = 0 \<longrightarrow> fst (At s now) = s)"
proof (intro conjI impI)
  show "Period (fst (At s now)) = Period s"
    by (simp add: At_def Let_def)
next
  assume ch: "Next (fst (At s now)) \<noteq> Next s"
  then show "Enabled s" by (auto simp: At_def Let_def split: if_splits)
  from ch show "sint (ns (Next s)) \<le> sint (ns now)"
    by (auto simp: At_def Let_def After_def split: if_splits)
  from ch show nz: "Period s \<noteq> 0" by (auto simp: At_def Let_def split: if_splits)
  assume "0 \<le> sint (Period s)"
  moreover have "sint (Period s) \<noteq> 0" using nz sint64_inj [of "Period s" 0] by auto
  ultimately show "0 < sint (Period s)" by simp
next
  assume z: "snd (At s now) = 0"
  show "fst (At s now) = s"
  proof (cases "Enabled s \<and> \<not> After (Next s) now \<and> Period s \<noteq> 0")
    case True
    then have "snd (At s now) \<noteq> 0"
      using expirations_nonzero [of s now] by (simp add: At_fire)
    with z show ?thesis by simp
  next
    case False
    with z show ?thesis by (auto simp: At_def Let_def split: if_splits)
  qed
qed

text \<open>
  At \<open>now = 35\<close> the setting \<open>{true, 10, 10}\<close> changes \<open>Next\<close>, in the periodic
  branch; at \<open>now = 5\<close> the count is 0 and the setting is returned as it is.
\<close>

theorem At_frame_witness:
  "Next (fst (At \<lparr>Enabled = True, Next = \<lparr>ns = 10\<rparr>, Period = 10\<rparr> \<lparr>ns = 35\<rparr>)) \<noteq> Next \<lparr>Enabled = True, Next = \<lparr>ns = 10\<rparr>, Period = 10\<rparr>
   \<and> Enabled \<lparr>Enabled = True, Next = \<lparr>ns = 10\<rparr>, Period = 10\<rparr> \<and> 0 \<le> sint (Period \<lparr>Enabled = True, Next = \<lparr>ns = 10\<rparr>, Period = 10\<rparr>) \<and> 0 < sint (Period \<lparr>Enabled = True, Next = \<lparr>ns = 10\<rparr>, Period = 10\<rparr>)
   \<and> Period (fst (At \<lparr>Enabled = True, Next = \<lparr>ns = 10\<rparr>, Period = 10\<rparr> \<lparr>ns = 35\<rparr>)) = 10
   \<and> snd (At \<lparr>Enabled = True, Next = \<lparr>ns = 10\<rparr>, Period = 10\<rparr> \<lparr>ns = 5\<rparr>) = 0
   \<and> fst (At \<lparr>Enabled = True, Next = \<lparr>ns = 10\<rparr>, Period = 10\<rparr> \<lparr>ns = 5\<rparr>) = \<lparr>Enabled = True, Next = \<lparr>ns = 10\<rparr>, Period = 10\<rparr>"
  using At_frame [of "\<lparr>Enabled = True, Next = \<lparr>ns = 10\<rparr>, Period = 10\<rparr>" "\<lparr>ns = 35\<rparr>"] At_frame [of "\<lparr>Enabled = True, Next = \<lparr>ns = 10\<rparr>, Period = 10\<rparr>" "\<lparr>ns = 5\<rparr>"]
  by (simp add: time_defs)

text \<open>
  C10 as stated fails: the last branch tests \<open>Period\<close> against zero only, and no
  function checks the invariant \<open>Period \<ge> 0\<close>.  The setting \<open>{true, 0, -3}\<close> at
  \<open>now = 10\<close> fires once and moves \<open>Next\<close> to \<open>-3\<close>, with a period that is not
  positive.  \<open>SettingFromSpecAt\<close> returns a setting with a negative period for the
  interval \<open>-4\<close>, and that setting changes \<open>Next\<close> in the same way.
\<close>

theorem At_frame_counterexample:
  "At \<lparr>Enabled = True, Next = \<lparr>ns = 0\<rparr>, Period = - 3\<rparr> \<lparr>ns = 10\<rparr>
     = (\<lparr>Enabled = True, Next = \<lparr>ns = - 3\<rparr>, Period = - 3\<rparr>, 1)
   \<and> Next (fst (At \<lparr>Enabled = True, Next = \<lparr>ns = 0\<rparr>, Period = - 3\<rparr> \<lparr>ns = 10\<rparr>)) \<noteq> Next \<lparr>Enabled = True, Next = \<lparr>ns = 0\<rparr>, Period = - 3\<rparr>
   \<and> \<not> 0 < sint (Period \<lparr>Enabled = True, Next = \<lparr>ns = 0\<rparr>, Period = - 3\<rparr>)
   \<and> SettingFromSpecAt 5 (- 4) \<lparr>ns = 0\<rparr>
       = Inr \<lparr>Enabled = True, Next = \<lparr>ns = 5\<rparr>, Period = - 4\<rparr>
   \<and> At \<lparr>Enabled = True, Next = \<lparr>ns = 5\<rparr>, Period = - 4\<rparr> \<lparr>ns = 10\<rparr>
       = (\<lparr>Enabled = True, Next = \<lparr>ns = 1\<rparr>, Period = - 4\<rparr>, 1)"
  by (simp add: time_defs SettingFromSpecAt_def)

section \<open>FromSeconds and FromUnix\<close>

lemma max_seconds: "sint (quo64 MaxInt64 SecondNanoseconds) = 9223372036"
  by (simp add: quo64_def MaxInt64_def SecondNanoseconds_def signed_divide_int_def)

text \<open>
  Where the product \<open>s * 10^9\<close> is a signed 64-bit value, \<open>FromSeconds\<close> returns it.
\<close>

lemma FromSeconds_exact:
  assumes "- 9223372036854775808 \<le> sint s * 1000000000"
    and "sint s * 1000000000 \<le> 9223372036854775807"
  shows "sint (ns (FromSeconds s)) = sint s * 1000000000"
proof -
  have "sint s \<le> 9223372036" using assms(2) by simp
  moreover have "sint (s * 1000000000) = sint s * 1000000000"
    using assms by (simp add: sint_word_mult signed_take_bit_int_eq_self)
  ultimately show ?thesis by (simp add: FromSeconds_def max_seconds)
qed

text \<open>Where the product is above the range, \<open>FromSeconds\<close> returns \<open>MaxTime\<close>.\<close>

lemma FromSeconds_above:
  assumes "9223372036854775807 < sint s * 1000000000"
  shows "FromSeconds s = MaxTime"
proof -
  have "9223372036 < sint s" using assms by simp
  then show ?thesis by (simp add: FromSeconds_def max_seconds)
qed

text \<open>
  C6.  The claim says that \<open>FromSeconds\<close> saturates whenever \<open>s * 10^9\<close> leaves the
  signed 64-bit range.  The source guards the upper side only.  For
  \<open>s = -9223372037\<close> the product \<open>-9223372037000000000\<close> is below \<open>MinInt64\<close>, and
  the result is the wrapped product, a positive instant that is neither \<open>MinTime\<close> nor
  \<open>MaxTime\<close>.  \<open>FromUnix\<close> has the same gap, and its second guard
  \<open>t > MaxInt64 - ns\<close> wraps for a negative \<open>ns\<close>: \<open>FromUnix(0, -1)\<close> is \<open>MaxTime\<close>.
\<close>

theorem FromSeconds_below_range:
  "sint (- 9223372037 :: int64) * 1000000000 < - 9223372036854775808
   \<and> FromSeconds (- 9223372037) = \<lparr>ns = 9223372036709551616\<rparr>
   \<and> FromSeconds (- 9223372037) \<noteq> MinTime
   \<and> FromSeconds (- 9223372037) \<noteq> MaxTime
   \<and> FromUnix (- 9223372037) 0 = \<lparr>ns = 9223372036709551616\<rparr>
   \<and> FromUnix 0 (- 1) = MaxTime"
proof -
  have fs: "FromSeconds (- 9223372037) = \<lparr>ns = 9223372036709551616\<rparr>"
    by (simp add: FromSeconds_def max_seconds)
  have fu: "FromUnix (- 9223372037) 0 = \<lparr>ns = 9223372036709551616\<rparr>"
    unfolding FromUnix_def max_seconds by (simp add: MaxInt64_def)
  have fn: "FromUnix 0 (- 1) = MaxTime"
    unfolding FromUnix_def max_seconds by (simp add: MaxInt64_def)
  show ?thesis
    unfolding fs fu fn by (simp add: MaxTime_def MinTime_def MaxInt64_def MinInt64_def)
qed

section \<open>The constructors of settings\<close>

text \<open>
  C7.  \<open>SettingFromSpecAt\<close> returns \<open>EINVAL\<close> exactly when \<open>value < 0\<close>, the disabled
  setting \<open>{false, ZeroTime, interval}\<close> exactly when \<open>value = 0\<close>, and otherwise
  \<open>{true, now.Add(value), interval}\<close>.  \<open>SettingFromAbsSpec\<close> does the same with the
  conditions \<open>value\<close> before \<open>ZeroTime\<close> and \<open>value\<close> equal to \<open>ZeroTime\<close>, and
  \<open>Next = value\<close>.  No function returns an error other than \<open>EINVAL\<close>;
  \<open>EventRegister\<close> of \<open>NoClockEvents\<close> returns none.
\<close>

theorem setting_constructors:
  "(SettingFromSpecAt v i now = Inl EINVAL) = (sint v < 0)
   \<and> (\<forall>e. SettingFromSpecAt v i now = Inl e \<longrightarrow> e = EINVAL)
   \<and> (SettingFromSpecAt v i now = Inr \<lparr>Enabled = False, Next = ZeroTime, Period = i\<rparr>) = (v = 0)
   \<and> (0 < sint v \<longrightarrow>
        SettingFromSpecAt v i now = Inr \<lparr>Enabled = True, Next = Add now v, Period = i\<rparr>)
   \<and> (SettingFromAbsSpec a i = Inl EINVAL) = Before a ZeroTime
   \<and> (\<forall>e. SettingFromAbsSpec a i = Inl e \<longrightarrow> e = EINVAL)
   \<and> (SettingFromAbsSpec a i = Inr \<lparr>Enabled = False, Next = ZeroTime, Period = i\<rparr>) = (a = ZeroTime)
   \<and> (After a ZeroTime \<longrightarrow>
        SettingFromAbsSpec a i = Inr \<lparr>Enabled = True, Next = a, Period = i\<rparr>)
   \<and> (\<forall>e. SettingFromSpec v i c = Inl e \<longrightarrow> e = EINVAL)
   \<and> NoClockEvents_EventRegister w = None"
proof -
  have z: "(sint v = 0) = (v = 0)" using sint64_inj [of v 0] by auto
  have za: "(sint (ns a) = 0) = (a = ZeroTime)"
    using sint64_inj [of "ns a" 0] by (cases a) (auto simp: ZeroTime_def)
  show ?thesis using z za
    by (auto simp: SettingFromSpecAt_def SettingFromAbsSpec_def SettingFromSpec_def
        NoClockEvents_EventRegister_def Setting_zero_def ZeroTime_def IsZero_def Before_def
        After_def)
qed

text \<open>
  A relative value of 5 at \<open>now = 100\<close> and an absolute value of 7 give enabled
  settings; the values \<open>-1\<close> are rejected with \<open>EINVAL\<close>.
\<close>

theorem setting_constructors_witness:
  "0 < sint (5 :: Duration)
   \<and> SettingFromSpecAt 5 3 \<lparr>ns = 100\<rparr> = Inr \<lparr>Enabled = True, Next = \<lparr>ns = 105\<rparr>, Period = 3\<rparr>
   \<and> After \<lparr>ns = 7\<rparr> ZeroTime
   \<and> SettingFromAbsSpec \<lparr>ns = 7\<rparr> 3 = Inr \<lparr>Enabled = True, Next = \<lparr>ns = 7\<rparr>, Period = 3\<rparr>
   \<and> SettingFromSpecAt (- 1) 3 \<lparr>ns = 100\<rparr> = Inl EINVAL
   \<and> SettingFromAbsSpec \<lparr>ns = - 1\<rparr> 3 = Inl EINVAL
   \<and> SettingFromSpec (- 1) 3 (clock_at 100) = Inl EINVAL"
  using setting_constructors [of 5 3 "\<lparr>ns = 100\<rparr>" "\<lparr>ns = 7\<rparr>" "clock_at 100" "()"]
    setting_constructors [of "- 1" 3 "\<lparr>ns = 100\<rparr>" "\<lparr>ns = - 1\<rparr>" "clock_at 100" "()"]
  by (simp add: After_def Before_def ZeroTime_def Add_def Duration_Nanoseconds_def MaxInt64_def
      SettingFromSpec_def clock_at_def)

section \<open>The timer\<close>

lemma trace_resetKickerLocked [simp]: "trace (resetKickerLocked c now t) = trace t"
  by (simp add: resetKickerLocked_def)

lemma setting_resetKickerLocked [simp]: "setting (resetKickerLocked c now t) = setting t"
  by (simp add: resetKickerLocked_def)

lemma pauseState_resetKickerLocked [simp]:
  "pauseState (resetKickerLocked c now t) = pauseState t"
  by (simp add: resetKickerLocked_def)

lemma listener_resetKickerLocked [simp]: "listener (resetKickerLocked c now t) = listener t"
  by (simp add: resetKickerLocked_def)

lemma trace_notify_and_update:
  "trace (notify_and_update L exp t) =
     trace t @ (if exp > 0 then [Notified exp (setting t)] else [])"
  by (auto simp: notify_and_update_def NotifyTimer_def split: prod.splits)

lemma setting_notify_and_update:
  "setting (notify_and_update L exp t) =
     (if exp > 0
      then (case L (listener t) exp (setting t) of
              (l', newS, ok) \<Rightarrow> if ok then newS else setting t)
      else setting t)"
  by (auto simp: notify_and_update_def NotifyTimer_def split: prod.splits)

lemma pauseState_notify_and_update [simp]:
  "pauseState (notify_and_update L exp t) = pauseState t"
  by (auto simp: notify_and_update_def NotifyTimer_def split: prod.splits)

text \<open>
  C3.  On an unpaused timer, \<open>SwapAnd(s, f)\<close> at the sampled time \<open>now\<close> advances the
  current setting to \<open>now\<close> and, if that gave expirations, calls the listener with them
  and the advanced setting; then it calls \<open>f\<close> once if \<open>f\<close> is not \<open>nil\<close>; then it
  computes \<open>s.At(now)\<close>, installs the result and, if that gave expirations, calls the
  listener again and installs the listener's setting when the listener says so.  It
  returns \<open>now\<close> and the old setting as advanced.  The setting left in the timer does
  not depend on the setting returned by the first call of the listener.
\<close>

theorem SwapAnd_order:
  assumes "pauseState t = timerUnpaused"
    and "At (setting t) (Now c) = (oldS, oldExp)"
    and "At s (Now c) = (newS, newExp)"
  shows "\<exists>t'. SwapAnd c L s f t = Inr ((Now c, oldS), t')
     \<and> trace t' = trace t
          @ (if oldExp > 0 then [Notified oldExp oldS] else [])
          @ (case f of None \<Rightarrow> [] | Some g \<Rightarrow> [Called_f])
          @ (if newExp > 0 then [Notified newExp newS] else [])
     \<and> setting t' =
          (if newExp > 0
           then (case L (case f of
                           None \<Rightarrow>
                             (if oldExp > 0 then fst (L (listener t) oldExp oldS) else listener t)
                         | Some g \<Rightarrow>
                             g (if oldExp > 0 then fst (L (listener t) oldExp oldS) else listener t))
                        newExp newS of
                   (l', replS, ok) \<Rightarrow> if ok then replS else newS)
           else newS)"
  using assms
  by (cases f)
    (simp_all add: SwapAnd_def Let_def trace_notify_and_update setting_notify_and_update
      NotifyTimer_def split: prod.splits)

text \<open>
  A timer with the setting \<open>{true, 10, 10}\<close> at \<open>now = 35\<close>, with a listener that always
  answers \<open>({true, 100, 100}, true)\<close>.  Swapping in the due one-shot \<open>{true, 20, 0}\<close>
  with a function \<open>f\<close> gives the three calls in order and installs the listener's
  answer to the second call.  Swapping in \<open>{true, 50, 0}\<close>, which is not due, leaves
  that setting in the timer: the listener's answer to the first call is dropped.
\<close>

theorem SwapAnd_order_witness:
  "pauseState ((NewTimer 0)\<lparr>setting := \<lparr>Enabled = True, Next = \<lparr>ns = 10\<rparr>, Period = 10\<rparr>\<rparr>) = timerUnpaused
   \<and> At (setting ((NewTimer 0)\<lparr>setting := \<lparr>Enabled = True, Next = \<lparr>ns = 10\<rparr>, Period = 10\<rparr>\<rparr>)) (Now (clock_at 35)) = (\<lparr>Enabled = True, Next = \<lparr>ns = 40\<rparr>, Period = 10\<rparr>, 3)
   \<and> At \<lparr>Enabled = True, Next = \<lparr>ns = 20\<rparr>, Period = 0\<rparr> (Now (clock_at 35)) = (\<lparr>Enabled = False, Next = \<lparr>ns = 20\<rparr>, Period = 0\<rparr>, 1)
   \<and> At \<lparr>Enabled = True, Next = \<lparr>ns = 50\<rparr>, Period = 0\<rparr> (Now (clock_at 35)) = (\<lparr>Enabled = True, Next = \<lparr>ns = 50\<rparr>, Period = 0\<rparr>, 0)
   \<and> (\<exists>t'. SwapAnd (clock_at 35) (replacing_listener \<lparr>Enabled = True, Next = \<lparr>ns = 100\<rparr>, Period = 100\<rparr>) \<lparr>Enabled = True, Next = \<lparr>ns = 20\<rparr>, Period = 0\<rparr> (Some (\<lambda>n. n + 10)) ((NewTimer 0)\<lparr>setting := \<lparr>Enabled = True, Next = \<lparr>ns = 10\<rparr>, Period = 10\<rparr>\<rparr>)
          = Inr ((\<lparr>ns = 35\<rparr>, \<lparr>Enabled = True, Next = \<lparr>ns = 40\<rparr>, Period = 10\<rparr>), t')
        \<and> trace t' = [Notified 3 \<lparr>Enabled = True, Next = \<lparr>ns = 40\<rparr>, Period = 10\<rparr>, Called_f, Notified 1 \<lparr>Enabled = False, Next = \<lparr>ns = 20\<rparr>, Period = 0\<rparr>]
        \<and> setting t' = \<lparr>Enabled = True, Next = \<lparr>ns = 100\<rparr>, Period = 100\<rparr>)
   \<and> (\<exists>t'. SwapAnd (clock_at 35) (replacing_listener \<lparr>Enabled = True, Next = \<lparr>ns = 100\<rparr>, Period = 100\<rparr>) \<lparr>Enabled = True, Next = \<lparr>ns = 50\<rparr>, Period = 0\<rparr> None ((NewTimer 0)\<lparr>setting := \<lparr>Enabled = True, Next = \<lparr>ns = 10\<rparr>, Period = 10\<rparr>\<rparr>)
          = Inr ((\<lparr>ns = 35\<rparr>, \<lparr>Enabled = True, Next = \<lparr>ns = 40\<rparr>, Period = 10\<rparr>), t')
        \<and> trace t' = [Notified 3 \<lparr>Enabled = True, Next = \<lparr>ns = 40\<rparr>, Period = 10\<rparr>]
        \<and> setting t' = \<lparr>Enabled = True, Next = \<lparr>ns = 50\<rparr>, Period = 0\<rparr>)"
proof -
  have a: "At (setting ((NewTimer 0)\<lparr>setting := \<lparr>Enabled = True, Next = \<lparr>ns = 10\<rparr>, Period = 10\<rparr>\<rparr>)) (Now (clock_at 35)) = (\<lparr>Enabled = True, Next = \<lparr>ns = 40\<rparr>, Period = 10\<rparr>, 3)"
    by (simp add: time_defs NewTimer_def clock_at_def)
  have b: "At \<lparr>Enabled = True, Next = \<lparr>ns = 20\<rparr>, Period = 0\<rparr> (Now (clock_at 35)) = (\<lparr>Enabled = False, Next = \<lparr>ns = 20\<rparr>, Period = 0\<rparr>, 1)"
    by (simp add: time_defs clock_at_def)
  have b': "At \<lparr>Enabled = True, Next = \<lparr>ns = 50\<rparr>, Period = 0\<rparr> (Now (clock_at 35)) = (\<lparr>Enabled = True, Next = \<lparr>ns = 50\<rparr>, Period = 0\<rparr>, 0)"
    by (simp add: time_defs clock_at_def)
  have p: "pauseState ((NewTimer 0)\<lparr>setting := \<lparr>Enabled = True, Next = \<lparr>ns = 10\<rparr>, Period = 10\<rparr>\<rparr>) = timerUnpaused" by (simp add: NewTimer_def)
  show ?thesis
    using a b b' SwapAnd_order [OF p a b, of "replacing_listener \<lparr>Enabled = True, Next = \<lparr>ns = 100\<rparr>, Period = 100\<rparr>" "Some (\<lambda>n. n + 10)"]
      SwapAnd_order [OF p a b', of "replacing_listener \<lparr>Enabled = True, Next = \<lparr>ns = 100\<rparr>, Period = 100\<rparr>" None]
    by (simp add: NewTimer_def clock_at_def replacing_listener_def)
qed

lemma trace_step:
  "\<exists>es. trace (fst (step L c t)) = trace t @ es \<and> list_all positive_notification es"
proof (cases c)
  case (Call_Tick k)
  then show ?thesis
    by (auto simp: Tick_def Let_def trace_notify_and_update split: prod.splits if_splits)
next
  case (Call_Get k)
  then show ?thesis
    by (auto simp: Get_def Let_def dropping_result_def trace_notify_and_update
        split: prod.splits if_splits)
next
  case (Call_Swap k s)
  then show ?thesis
    by (auto simp: Swap_def SwapAnd_def Let_def dropping_result_def trace_notify_and_update
        NotifyTimer_def split: prod.splits if_splits)
next
  case (Call_SwapAnd k s f)
  then show ?thesis
    by (cases f)
      (auto simp: SwapAnd_def Let_def dropping_result_def trace_notify_and_update
        NotifyTimer_def split: prod.splits if_splits)
next
  case Call_Pause
  then show ?thesis by (auto simp: Pause_def)
next
  case Call_Resume
  then show ?thesis by (auto simp: Resume_def)
next
  case Call_Destroy
  then show ?thesis by (auto simp: Destroy_def)
qed

text \<open>
  C4.  Across every sequence of calls of \<open>Tick\<close>, \<open>Get\<close>, \<open>Swap\<close> and \<open>SwapAnd\<close>
  (and of \<open>Pause\<close>, \<open>Resume\<close> and \<open>Destroy\<close>), every call of the listener has a
  positive number of expirations: if that holds of the calls recorded so far, it holds
  of the calls recorded after the sequence.
\<close>

theorem notifications_positive:
  "list_all positive_notification (trace t) \<Longrightarrow>
   list_all positive_notification (trace (fst (run L cs t)))"
proof (induction cs arbitrary: t)
  case Nil
  then show ?case by simp
next
  case (Cons c cs)
  obtain t' r where st: "step L c t = (t', r)" by (cases "step L c t")
  obtain es where "trace t' = trace t @ es" "list_all positive_notification es"
    using trace_step [of L c t] st by auto
  then have pos: "list_all positive_notification (trace t')" using Cons.prems by simp
  show ?case
  proof (cases r)
    case None
    then show ?thesis using st pos Cons.IH by simp
  next
    case (Some p)
    then show ?thesis using st pos by simp
  qed
qed

text \<open>
  A new timer is given \<open>{true, 10, 10}\<close> at time 0 and ticks at 35, at 5 and is read
  at 41; then a due one-shot is swapped in at 60.  The listener is called four times,
  each time with a positive count.
\<close>

theorem notifications_positive_witness:
  "list_all positive_notification (trace (NewTimer False))
   \<and> trace (fst (run ChannelNotifier
        [Call_Swap (clock_at 0) \<lparr>Enabled = True, Next = \<lparr>ns = 10\<rparr>, Period = 10\<rparr>, Call_Tick (clock_at 35), Call_Tick (clock_at 5),
         Call_Get (clock_at 41), Call_SwapAnd (clock_at 60) \<lparr>Enabled = True, Next = \<lparr>ns = 20\<rparr>, Period = 0\<rparr> None]
        (NewTimer False)))
      = [Notified 3 \<lparr>Enabled = True, Next = \<lparr>ns = 40\<rparr>, Period = 10\<rparr>,
         Notified 1 \<lparr>Enabled = True, Next = \<lparr>ns = 50\<rparr>, Period = 10\<rparr>,
         Notified 2 \<lparr>Enabled = True, Next = \<lparr>ns = 70\<rparr>, Period = 10\<rparr>,
         Notified 1 \<lparr>Enabled = False, Next = \<lparr>ns = 20\<rparr>, Period = 0\<rparr>]
   \<and> list_all positive_notification (trace (fst (run ChannelNotifier
        [Call_Swap (clock_at 0) \<lparr>Enabled = True, Next = \<lparr>ns = 10\<rparr>, Period = 10\<rparr>, Call_Tick (clock_at 35), Call_Tick (clock_at 5),
         Call_Get (clock_at 41), Call_SwapAnd (clock_at 60) \<lparr>Enabled = True, Next = \<lparr>ns = 20\<rparr>, Period = 0\<rparr> None]
        (NewTimer False))))"
proof -
  have t0: "list_all positive_notification (trace (NewTimer False))"
    by (simp add: NewTimer_def)
  have tr: "trace (fst (run ChannelNotifier
        [Call_Swap (clock_at 0) \<lparr>Enabled = True, Next = \<lparr>ns = 10\<rparr>, Period = 10\<rparr>, Call_Tick (clock_at 35), Call_Tick (clock_at 5),
         Call_Get (clock_at 41), Call_SwapAnd (clock_at 60) \<lparr>Enabled = True, Next = \<lparr>ns = 20\<rparr>, Period = 0\<rparr> None]
        (NewTimer False)))
      = [Notified 3 \<lparr>Enabled = True, Next = \<lparr>ns = 40\<rparr>, Period = 10\<rparr>,
         Notified 1 \<lparr>Enabled = True, Next = \<lparr>ns = 50\<rparr>, Period = 10\<rparr>,
         Notified 2 \<lparr>Enabled = True, Next = \<lparr>ns = 70\<rparr>, Period = 10\<rparr>,
         Notified 1 \<lparr>Enabled = False, Next = \<lparr>ns = 20\<rparr>, Period = 0\<rparr>]"
    by (simp add: timer_defs time_defs)
  show ?thesis
    using t0 tr notifications_positive [OF t0, of ChannelNotifier
        "[Call_Swap (clock_at 0) \<lparr>Enabled = True, Next = \<lparr>ns = 10\<rparr>, Period = 10\<rparr>, Call_Tick (clock_at 35), Call_Tick (clock_at 5),
         Call_Get (clock_at 41), Call_SwapAnd (clock_at 60) \<lparr>Enabled = True, Next = \<lparr>ns = 20\<rparr>, Period = 0\<rparr> None]"]
    by simp
qed

lemma step_Destroyed:
  assumes "pauseState t = timerDestroyed" and "\<not> Enabled (setting t)"
    and "kicker t = None" and "events_closed t"
  shows "fst (step L c t) = t"
  using assms
  by (cases c)
    (auto simp: Tick_def Get_def Swap_def SwapAnd_def Pause_def Resume_def Destroy_def Let_def
      dropping_result_def)

text \<open>
  C8.  After \<open>Destroy\<close> the pause state is \<open>timerDestroyed\<close> and the setting is
  disabled.  \<open>Tick\<close>, \<open>Pause\<close> and \<open>Resume\<close> leave a destroyed timer as it is, and
  so does every sequence of calls (\<open>Get\<close>, the swaps and a second \<open>Destroy\<close>
  panic): the state stays the destroyed one, and no call of the listener is added to
  the record.  The first \<open>Destroy\<close> does not panic, a second one does.
\<close>

theorem Destroy_terminal:
  "pauseState (fst (Destroy t)) = timerDestroyed \<and> \<not> Enabled (setting (fst (Destroy t)))
   \<and> Tick c L (fst (Destroy t)) = fst (Destroy t)
   \<and> Pause (fst (Destroy t)) = fst (Destroy t)
   \<and> Resume (fst (Destroy t)) = fst (Destroy t)
   \<and> fst (run L cs (fst (Destroy t))) = fst (Destroy t)
   \<and> trace (fst (run L cs (fst (Destroy t)))) = trace t
   \<and> snd (Destroy t) = (if events_closed t then Some Panic_close_of_closed_channel else None)
   \<and> snd (Destroy (fst (Destroy t))) = Some Panic_close_of_closed_channel"
proof -
  let ?d = "fst (Destroy t)"
  have d: "pauseState ?d = timerDestroyed" "\<not> Enabled (setting ?d)"
    "kicker ?d = None" "events_closed ?d" "trace ?d = trace t"
    by (simp_all add: Destroy_def)
  have r: "fst (run L cs ?d) = ?d"
  proof (induction cs)
    case Nil
    show ?case by simp
  next
    case (Cons x xs)
    obtain t' p where st: "step L x ?d = (t', p)" by (cases "step L x ?d")
    then have "t' = ?d" using step_Destroyed [OF d(1,2,3,4), of L x] by simp
    then show ?case using st Cons by (cases p) simp_all
  qed
  have p: "snd (Destroy t) = (if events_closed t then Some Panic_close_of_closed_channel else None)"
    "snd (Destroy ?d) = Some Panic_close_of_closed_channel"
    by (simp_all add: Destroy_def)
  show ?thesis using d r p by (simp add: Tick_def Pause_def Resume_def)
qed

text \<open>
  A timer with the setting \<open>{true, 10, 10}\<close> would notify three expirations on a
  tick at 35.  Once destroyed, ticks at 35 and 99 with a \<open>Resume\<close> and a \<open>Pause\<close> in
  between notify nothing; a second \<open>Destroy\<close> panics and stops the sequence.
\<close>

theorem Destroy_terminal_witness:
  "setting (fst (run ChannelNotifier
      [Call_Tick (clock_at 35), Call_Resume, Call_Pause, Call_Tick (clock_at 99), Call_Destroy,
       Call_Tick (clock_at 100)]
      (fst (Destroy ((NewTimer False)\<lparr>setting := \<lparr>Enabled = True, Next = \<lparr>ns = 10\<rparr>, Period = 10\<rparr>\<rparr>)))))
     = \<lparr>Enabled = False, Next = \<lparr>ns = 10\<rparr>, Period = 10\<rparr>
   \<and> pauseState (fst (run ChannelNotifier
      [Call_Tick (clock_at 35), Call_Resume, Call_Pause, Call_Tick (clock_at 99), Call_Destroy,
       Call_Tick (clock_at 100)]
      (fst (Destroy ((NewTimer False)\<lparr>setting := \<lparr>Enabled = True, Next = \<lparr>ns = 10\<rparr>, Period = 10\<rparr>\<rparr>))))) = timerDestroyed
   \<and> trace (fst (run ChannelNotifier
      [Call_Tick (clock_at 35), Call_Resume, Call_Pause, Call_Tick (clock_at 99), Call_Destroy,
       Call_Tick (clock_at 100)]
      (fst (Destroy ((NewTimer False)\<lparr>setting := \<lparr>Enabled = True, Next = \<lparr>ns = 10\<rparr>, Period = 10\<rparr>\<rparr>))))) = []
   \<and> snd (run ChannelNotifier
      [Call_Tick (clock_at 35), Call_Resume, Call_Pause, Call_Tick (clock_at 99), Call_Destroy,
       Call_Tick (clock_at 100)]
      (fst (Destroy ((NewTimer False)\<lparr>setting := \<lparr>Enabled = True, Next = \<lparr>ns = 10\<rparr>, Period = 10\<rparr>\<rparr>))))
     = Some Panic_close_of_closed_channel
   \<and> snd (Destroy ((NewTimer False)\<lparr>setting := \<lparr>Enabled = True, Next = \<lparr>ns = 10\<rparr>, Period = 10\<rparr>\<rparr>)) = None
   \<and> trace (Tick (clock_at 35) ChannelNotifier ((NewTimer False)\<lparr>setting := \<lparr>Enabled = True, Next = \<lparr>ns = 10\<rparr>, Period = 10\<rparr>\<rparr>))
      = [Notified 3 \<lparr>Enabled = True, Next = \<lparr>ns = 40\<rparr>, Period = 10\<rparr>]"
  using Destroy_terminal [of "(NewTimer False)\<lparr>setting := \<lparr>Enabled = True, Next = \<lparr>ns = 10\<rparr>, Period = 10\<rparr>\<rparr>" "clock_at 35" ChannelNotifier
      "[Call_Tick (clock_at 35), Call_Resume, Call_Pause, Call_Tick (clock_at 99), Call_Destroy,
        Call_Tick (clock_at 100)]"]
  by (simp add: timer_defs time_defs)

text \<open>
  C9.  When \<open>Get\<close> on an unpaused timer finds expirations and the listener answers
  \<open>(newS, true)\<close>, \<open>Get\<close> returns the setting as advanced by \<open>At\<close>, while the timer
  holds \<open>newS\<close> after the call.
\<close>

theorem Get_returns_advanced_setting:
  assumes "pauseState t = timerUnpaused"
    and "At (setting t) (Now c) = (s, exp)"
    and "exp > 0"
    and "L (listener t) exp s = (l', newS, True)"
  shows "\<exists>t'. Get c L t = Inr ((Now c, s), t') \<and> setting t' = newS"
  using assms by (simp add: Get_def Let_def setting_notify_and_update)

text \<open>
  The third scenario of the spec: the setting \<open>{true, 10, 10}\<close> at \<open>now = 25\<close> with a
  listener that answers \<open>({true, 100, 100}, true)\<close>.  \<open>Get\<close> returns
  \<open>{true, 30, 10}\<close>; the timer holds \<open>{true, 100, 100}\<close>.
\<close>

theorem Get_returns_advanced_setting_witness:
  "pauseState ((NewTimer 0)\<lparr>setting := \<lparr>Enabled = True, Next = \<lparr>ns = 10\<rparr>, Period = 10\<rparr>\<rparr>) = timerUnpaused
   \<and> At (setting ((NewTimer 0)\<lparr>setting := \<lparr>Enabled = True, Next = \<lparr>ns = 10\<rparr>, Period = 10\<rparr>\<rparr>)) (Now (clock_at 25)) = (\<lparr>Enabled = True, Next = \<lparr>ns = 30\<rparr>, Period = 10\<rparr>, 2)
   \<and> (2 :: uint64) > 0
   \<and> replacing_listener \<lparr>Enabled = True, Next = \<lparr>ns = 100\<rparr>, Period = 100\<rparr> (listener ((NewTimer 0)\<lparr>setting := \<lparr>Enabled = True, Next = \<lparr>ns = 10\<rparr>, Period = 10\<rparr>\<rparr>)) 2 \<lparr>Enabled = True, Next = \<lparr>ns = 30\<rparr>, Period = 10\<rparr> = (1, \<lparr>Enabled = True, Next = \<lparr>ns = 100\<rparr>, Period = 100\<rparr>, True)
   \<and> (\<exists>t'. Get (clock_at 25) (replacing_listener \<lparr>Enabled = True, Next = \<lparr>ns = 100\<rparr>, Period = 100\<rparr>) ((NewTimer 0)\<lparr>setting := \<lparr>Enabled = True, Next = \<lparr>ns = 10\<rparr>, Period = 10\<rparr>\<rparr>)
           = Inr ((Now (clock_at 25), \<lparr>Enabled = True, Next = \<lparr>ns = 30\<rparr>, Period = 10\<rparr>), t')
         \<and> setting t' = \<lparr>Enabled = True, Next = \<lparr>ns = 100\<rparr>, Period = 100\<rparr>)
   \<and> Now (clock_at 25) = \<lparr>ns = 25\<rparr>
   \<and> \<lparr>Enabled = True, Next = \<lparr>ns = 30\<rparr>, Period = 10\<rparr> \<noteq> \<lparr>Enabled = True, Next = \<lparr>ns = 100\<rparr>, Period = 100\<rparr>"
proof -
  have p: "pauseState ((NewTimer 0)\<lparr>setting := \<lparr>Enabled = True, Next = \<lparr>ns = 10\<rparr>, Period = 10\<rparr>\<rparr>) = timerUnpaused" by (simp add: NewTimer_def)
  have a: "At (setting ((NewTimer 0)\<lparr>setting := \<lparr>Enabled = True, Next = \<lparr>ns = 10\<rparr>, Period = 10\<rparr>\<rparr>)) (Now (clock_at 25)) = (\<lparr>Enabled = True, Next = \<lparr>ns = 30\<rparr>, Period = 10\<rparr>, 2)"
    by (simp add: time_defs NewTimer_def clock_at_def)
  have e: "(2 :: uint64) > 0" by simp
  have l: "replacing_listener \<lparr>Enabled = True, Next = \<lparr>ns = 100\<rparr>, Period = 100\<rparr> (listener ((NewTimer 0)\<lparr>setting := \<lparr>Enabled = True, Next = \<lparr>ns = 10\<rparr>, Period = 10\<rparr>\<rparr>)) 2 \<lparr>Enabled = True, Next = \<lparr>ns = 30\<rparr>, Period = 10\<rparr> = (1, \<lparr>Enabled = True, Next = \<lparr>ns = 100\<rparr>, Period = 100\<rparr>, True)"
    by (simp add: replacing_listener_def NewTimer_def)
  have n: "Now (clock_at 25) = \<lparr>ns = 25\<rparr>" by (simp add: clock_at_def)
  have d: "\<lparr>Enabled = True, Next = \<lparr>ns = 30\<rparr>, Period = 10\<rparr> \<noteq> \<lparr>Enabled = True, Next = \<lparr>ns = 100\<rparr>, Period = 100\<rparr>" by simp
  show ?thesis
    using p a e l n d
      Get_returns_advanced_setting [where L = "replacing_listener \<lparr>Enabled = True, Next = \<lparr>ns = 100\<rparr>, Period = 100\<rparr>", OF p a e l]
    by blast
qed

end
